theory Spec2Isabelle
  imports Complex_Main "HOL-Library.Sublist"
begin

section \<open>The audio player of \<open>src/App.js\<close> (\<open>AudioPlayerProvider\<close>)\<close>

text \<open>
  The provider keeps its playback state in React state cells, and the media element and the
  id of the progress timer in two refs. The model is one record holding all of them, together
  with the parts of the browser the code talks to: the table of active interval timers, the
  notifications raised with \<open>toast\<close> and the URLs requested with \<open>axios.get\<close>.

  An \<open>async\<close> function is modelled by one function for each stretch of code between two
  suspension points. Each returns the new state and what the invocation is waiting for
  (\<open>pending\<close>); the value a suspension point resumes with (the search response, the
  \<open>canplay\<close> or \<open>error\<close> event, the outcome of \<open>play()\<close>) is an argument of the
  function that continues from there. A time is a JavaScript number: a real, \<open>NaN\<close> or
  one of the two infinities (rounding is not modelled). Strings are byte strings, and the
  entries of a queue are track objects, which are truthy.
\<close>

subsection \<open>Data\<close>

datatype number = Num real | NaN | Infinity | NegInfinity

record song =
  name :: string
  artist :: string
  duration_ms :: real
  preview_url :: "string option"

text \<open>The attributes of the \<open>HTMLAudioElement\<close> that the provider reads or writes, and
  counters for its calls of \<open>load()\<close> and \<open>play()\<close>. The playback position of the
  element is always finite; its \<open>duration\<close> is \<open>NaN\<close> until the metadata is known and
  \<open>Infinity\<close> for a stream.\<close>

record audio =
  src :: string
  crossOrigin :: "string option"
  paused :: bool
  currentTime_a :: real
  duration_a :: number
  volume_a :: real
  onerror :: bool
  load_calls :: nat
  play_calls :: nat

datatype toast_kind = Info | Success | Error

datatype timer_kind = Poll | Simulated number

record player =
  currentSong :: "song option"
  isPlaying :: bool
  currentTime :: number
  duration :: number
  volume :: real
  isMuted :: bool
  isShuffled :: bool
  isRepeat :: bool
  queue :: "song list"
  currentIndex :: int
  isPlayerMinimized :: bool
  audioRef :: "audio option"
  intervalRef :: "nat option"
  timers :: "(nat \<times> timer_kind) list"
  next_timer :: nat
  toasts :: "(toast_kind \<times> string) list"
  requests :: "string list"
  API :: string

text \<open>What an invocation of \<open>playSong\<close> or \<open>resumeSong\<close> is suspended on, with the
  values its continuation uses: the locals \<open>song\<close> and \<open>audioUrl\<close>, and for
  \<open>resumeSong\<close> the \<open>duration\<close> it closed over.\<close>

datatype pending =
    Finished
  | AwaitSearch song
  | AwaitCanplay song string
  | AwaitPlay song string
  | AwaitRetry song string
  | AwaitResume number

text \<open>The response of the search: the request failed (or reading the response threw), or
  it answered with a list of results, each with its \<open>previewUrl\<close>.\<close>

datatype search_outcome = SearchFailed | SearchResults "string option list"

text \<open>The outcome of the promise of \<open>audio.play()\<close>; a rejection carries
  \<open>error.message\<close> (empty when there is none).\<close>

datatype outcome = Resolved | Rejected string

subsection \<open>JavaScript and browser primitives\<close>

definition truthy :: "string option \<Rightarrow> bool" where
  "truthy u = (case u of None \<Rightarrow> False | Some v \<Rightarrow> v \<noteq> [])"

text \<open>Truthiness, addition and \<open>>=\<close> of numbers.\<close>

fun truthy_number :: "number \<Rightarrow> bool" where
  "truthy_number (Num x) = (x \<noteq> 0)"
| "truthy_number NaN = False"
| "truthy_number Infinity = True"
| "truthy_number NegInfinity = True"

fun js_plus :: "number \<Rightarrow> number \<Rightarrow> number" where
  "js_plus (Num x) (Num y) = Num (x + y)"
| "js_plus NaN y = NaN"
| "js_plus x NaN = NaN"
| "js_plus Infinity NegInfinity = NaN"
| "js_plus NegInfinity Infinity = NaN"
| "js_plus Infinity y = Infinity"
| "js_plus x Infinity = Infinity"
| "js_plus NegInfinity y = NegInfinity"
| "js_plus x NegInfinity = NegInfinity"

fun js_ge :: "number \<Rightarrow> number \<Rightarrow> bool" where
  "js_ge (Num x) (Num y) = (y \<le> x)"
| "js_ge NaN y = False"
| "js_ge x NaN = False"
| "js_ge Infinity y = True"
| "js_ge x NegInfinity = True"
| "js_ge x y = False"

definition js_rem :: "int \<Rightarrow> int \<Rightarrow> int" where
  "js_rem a b = (if 0 \<le> a then a mod \<bar>b\<bar> else - ((- a) mod \<bar>b\<bar>))"

definition js_index :: "'a list \<Rightarrow> int \<Rightarrow> 'a option" where
  "js_index xs i = (if 0 \<le> i \<and> i < int (length xs) then Some (xs ! nat i) else None)"

definition dq :: string where
  "dq = [CHR 0x22]"

definition hex_digit :: "nat \<Rightarrow> char" where
  "hex_digit n = ''0123456789ABCDEF'' ! n"

definition unreserved :: "char \<Rightarrow> bool" where
  "unreserved c =
     (let n = (of_char c :: nat)
      in (65 \<le> n \<and> n \<le> 90) \<or> (97 \<le> n \<and> n \<le> 122) \<or> (48 \<le> n \<and> n \<le> 57)
         \<or> c \<in> set ''-_.!~*()'' \<or> c = CHR 0x27)"

definition encodeURIComponent :: "string \<Rightarrow> string" where
  "encodeURIComponent s =
     concat (map (\<lambda>c. if unreserved c then [c]
                       else [CHR ''%'', hex_digit (of_char c div 16), hex_digit (of_char c mod 16)]) s)"

fun string_of_nat :: "nat \<Rightarrow> string" where
  "string_of_nat n =
     (if n < 10 then [char_of (48 + n)]
      else string_of_nat (n div 10) @ [char_of (48 + n mod 10)])"

definition toast :: "toast_kind \<Rightarrow> string \<Rightarrow> player \<Rightarrow> player" where
  "toast k m s = s\<lparr>toasts := toasts s @ [(k, m)]\<rparr>"

definition axios_get :: "string \<Rightarrow> player \<Rightarrow> player" where
  "axios_get url s = s\<lparr>requests := requests s @ [url]\<rparr>"

definition clearInterval :: "nat \<Rightarrow> player \<Rightarrow> player" where
  "clearInterval i s = s\<lparr>timers := filter (\<lambda>(j, k). j \<noteq> i) (timers s)\<rparr>"

definition setInterval :: "timer_kind \<Rightarrow> player \<Rightarrow> nat \<times> player" where
  "setInterval k s =
     (next_timer s, s\<lparr>timers := timers s @ [(next_timer s, k)], next_timer := next_timer s + 1\<rparr>)"

text \<open>The media element: \<open>pause()\<close> sets \<open>paused\<close>; assigning \<open>src\<close> and \<open>load()\<close>
  restart resource selection, which pauses and rewinds; \<open>play()\<close> clears \<open>paused\<close>.\<close>

definition audio_pause :: "audio \<Rightarrow> audio" where
  "audio_pause a = a\<lparr>paused := True\<rparr>"

definition audio_set_src :: "string \<Rightarrow> audio \<Rightarrow> audio" where
  "audio_set_src u a = a\<lparr>src := u, paused := True, currentTime_a := 0\<rparr>"

definition audio_load :: "audio \<Rightarrow> audio" where
  "audio_load a = a\<lparr>paused := True, currentTime_a := 0, load_calls := load_calls a + 1\<rparr>"

definition audio_play :: "audio \<Rightarrow> audio" where
  "audio_play a = a\<lparr>paused := False, play_calls := play_calls a + 1\<rparr>"

subsection \<open>The progress timer\<close>

text \<open>
  The five places that start progress tracking are the same three lines:
  \<^verbatim>\<open>if (intervalRef.current) { clearInterval(intervalRef.current); }
intervalRef.current = setInterval(..., ...);\<close>
\<close>

definition clear_if_set :: "player \<Rightarrow> player" where
  "clear_if_set s =
     (case intervalRef s of
        None \<Rightarrow> s
      | Some i \<Rightarrow> if i \<noteq> 0 then clearInterval i s else s)"

definition track_progress :: "timer_kind \<Rightarrow> player \<Rightarrow> player" where
  "track_progress k s =
     (let (i, s') = setInterval k (clear_if_set s) in s'\<lparr>intervalRef := Some i\<rparr>)"

subsection \<open>\<open>playSong\<close>\<close>

definition note_emoji :: string where
  "note_emoji = [CHR 0xF0, CHR 0x9F, CHR 0x8E, CHR 0xB5]"

definition play_emoji :: string where
  "play_emoji = [CHR 0xE2, CHR 0x96, CHR 0xB6, CHR 0xEF, CHR 0xB8, CHR 0x8F]"

text \<open>The outer \<open>catch\<close> of \<open>playSong\<close>.\<close>

definition playSong_catch :: "song \<Rightarrow> string \<Rightarrow> player \<Rightarrow> player" where
  "playSong_catch sg msg s =
     (toast Error (''Failed to play '' @ dq @ name sg @ dq @ ''. ''
                   @ (if msg \<noteq> [] then msg else ''Unknown error'')) s)\<lparr>isPlaying := False\<rparr>"

text \<open>The message of the \<open>TypeError\<close> of a property read on \<open>null\<close>.\<close>

definition null_message :: string where
  "null_message = ''Cannot read properties of null''"

text \<open>From \<open>if (audioRef.current && audioUrl)\<close> to the wait for \<open>canplay\<close>.\<close>

definition bind_source :: "song \<Rightarrow> string \<Rightarrow> player \<Rightarrow> player \<times> pending" where
  "bind_source sg audioUrl s =
     (case audioRef s of
        None \<Rightarrow> (s, Finished)
      | Some a \<Rightarrow>
          if audioUrl = [] then (s, Finished)
          else
            let a1 = (audio_pause a)\<lparr>currentTime_a := 0\<rparr>;
                a2 = audio_set_src audioUrl (a1\<lparr>crossOrigin := Some ''anonymous''\<rparr>);
                a3 = audio_load (a2\<lparr>onerror := True\<rparr>)
            in (s\<lparr>audioRef := Some a3\<rparr>, AwaitCanplay sg audioUrl))"

text \<open>\<open>playSong\<close> up to its first suspension point.\<close>

definition playSong :: "song option \<Rightarrow> song list \<Rightarrow> int \<Rightarrow> player \<Rightarrow> player \<times> pending" where
  "playSong song songQueue index s =
     (case song of
        None \<Rightarrow> (s, Finished)
      | Some sg \<Rightarrow>
          let s1 = s\<lparr>currentSong := Some sg,
                     queue := (if length songQueue > 0 then songQueue else [sg]),
                     currentIndex := index,
                     isPlaying := False\<rparr>
          in if \<not> truthy (preview_url sg) then
               let s2 = toast Info (''Searching for preview of '' @ dq @ name sg @ dq @ ''...'') s1;
                   searchTerm = encodeURIComponent (name sg @ '' '' @ artist sg);
                   itunesUrl = ''https://itunes.apple.com/search?term='' @ searchTerm
                               @ ''&media=music&entity=song&limit=1''
               in (axios_get itunesUrl s2, AwaitSearch sg)
             else bind_source sg (the (preview_url sg)) s1)"

text \<open>After \<open>await axios.get(itunesUrl)\<close>.\<close>

definition playSong_searched :: "song \<Rightarrow> search_outcome \<Rightarrow> player \<Rightarrow> player \<times> pending" where
  "playSong_searched sg r s =
     (case r of
        SearchFailed \<Rightarrow>
          ((toast Error (''Preview not available for '' @ dq @ name sg @ dq @ ''.'') s)
             \<lparr>isPlaying := False\<rparr>, Finished)
      | SearchResults results \<Rightarrow>
          let (audioUrl, s1) =
                (case results of
                   [] \<Rightarrow> (None, s)
                 | itunesPreviewUrl # _ \<Rightarrow>
                     if truthy itunesPreviewUrl then
                       (Some (API s @ ''/audio/proxy?url=''
                              @ encodeURIComponent (the itunesPreviewUrl)),
                        toast Success ''Found preview from iTunes!'' s)
                     else (None, s))
          in if \<not> truthy audioUrl then
               ((toast Error (''No preview available for '' @ dq @ name sg @ dq
                              @ ''. Try opening in Spotify to listen.'') s1)
                  \<lparr>isPlaying := False\<rparr>, Finished)
             else bind_source sg (the audioUrl) s1)"

text \<open>After the wait for \<open>canplay\<close>: an \<open>error\<close> event rejects the promise, which the
  outer \<open>catch\<close> receives (the event has no \<open>message\<close>); \<open>canplay\<close> goes on to the first
  \<open>play()\<close>.\<close>

definition playSong_loaded :: "song \<Rightarrow> string \<Rightarrow> bool \<Rightarrow> player \<Rightarrow> player \<times> pending" where
  "playSong_loaded sg audioUrl canplay s =
     (if \<not> canplay then (playSong_catch sg [] s, Finished)
      else case audioRef s of
             None \<Rightarrow> (playSong_catch sg null_message s, Finished)
           | Some a \<Rightarrow> (s\<lparr>audioRef := Some (audio_play a)\<rparr>, AwaitPlay sg audioUrl))"

text \<open>The block after a \<open>play()\<close> that resolved; it is written twice in the source, after
  the first \<open>play()\<close> and after the second.\<close>

definition now_playing :: "song \<Rightarrow> player \<Rightarrow> player" where
  "now_playing sg s =
     (case audioRef s of
        None \<Rightarrow> playSong_catch sg null_message (s\<lparr>isPlaying := True\<rparr>)
      | Some a \<Rightarrow>
          let d = (if truthy_number (duration_a a) then duration_a a
                   else Num (duration_ms sg / 1000));
              s1 = s\<lparr>isPlaying := True, duration := d\<rparr>;
              s2 = track_progress Poll s1
          in toast Success (note_emoji @ '' Now playing: '' @ name sg @ '' by '' @ artist sg) s2)"

text \<open>After the first \<open>await audioRef.current.play()\<close>: on a rejection the inner
  \<open>catch\<close> clears \<open>crossOrigin\<close>, binds the source again and calls \<open>play()\<close> once more.\<close>

definition playSong_started :: "song \<Rightarrow> string \<Rightarrow> outcome \<Rightarrow> player \<Rightarrow> player \<times> pending" where
  "playSong_started sg audioUrl r s =
     (case r of
        Resolved \<Rightarrow> (now_playing sg s, Finished)
      | Rejected msg \<Rightarrow>
          (case audioRef s of
             None \<Rightarrow> (playSong_catch sg null_message s, Finished)
           | Some a \<Rightarrow>
               let a1 = audio_set_src audioUrl (a\<lparr>crossOrigin := None\<rparr>);
                   a2 = audio_play (audio_load a1)
               in (s\<lparr>audioRef := Some a2\<rparr>, AwaitRetry sg audioUrl)))"

text \<open>After the second \<open>await audioRef.current.play()\<close>: a rejection is thrown again
  and reaches the outer \<open>catch\<close>.\<close>

definition playSong_retried :: "song \<Rightarrow> string \<Rightarrow> outcome \<Rightarrow> player \<Rightarrow> player \<times> pending" where
  "playSong_retried sg audioUrl r s =
     (case r of
        Resolved \<Rightarrow> (now_playing sg s, Finished)
      | Rejected msg \<Rightarrow> (playSong_catch sg msg s, Finished))"

subsection \<open>\<open>pauseSong\<close>, \<open>resumeSong\<close>, \<open>togglePlayPause\<close>\<close>

definition pauseSong :: "player \<Rightarrow> player" where
  "pauseSong s =
     (let s1 = (case audioRef s of
                  None \<Rightarrow> s
                | Some a \<Rightarrow> s\<lparr>audioRef := Some (audio_pause a)\<rparr>)
      in clear_if_set (s1\<lparr>isPlaying := False\<rparr>))"

text \<open>The simulated resume, written in the \<open>else\<close> branch and again in the \<open>catch\<close>;
  \<open>d\<close> is the \<open>duration\<close> the callback closed over.\<close>

definition resume_simulated :: "number \<Rightarrow> player \<Rightarrow> player" where
  "resume_simulated d s =
     toast Success (play_emoji @ '' Resumed playback (Demo mode)'')
       (track_progress (Simulated d) (s\<lparr>isPlaying := True\<rparr>))"

definition resumeSong :: "player \<Rightarrow> player \<times> pending" where
  "resumeSong s =
     (case currentSong s of
        None \<Rightarrow> (s, Finished)
      | Some _ \<Rightarrow>
          (case audioRef s of
             None \<Rightarrow> (resume_simulated (duration s) s, Finished)
           | Some a \<Rightarrow>
               if src a \<noteq> [] then (s\<lparr>audioRef := Some (audio_play a)\<rparr>, AwaitResume (duration s))
               else (resume_simulated (duration s) s, Finished)))"

text \<open>After \<open>await audioRef.current.play()\<close> in \<open>resumeSong\<close>.\<close>

definition resumeSong_started :: "number \<Rightarrow> outcome \<Rightarrow> player \<Rightarrow> player" where
  "resumeSong_started d r s =
     (case r of
        Resolved \<Rightarrow>
          toast Success (play_emoji @ '' Resumed playback'')
            (track_progress Poll (s\<lparr>isPlaying := True\<rparr>))
      | Rejected msg \<Rightarrow> resume_simulated d s)"

definition togglePlayPause :: "player \<Rightarrow> player \<times> pending" where
  "togglePlayPause s =
     (if isPlaying s then (pauseSong s, Finished)
      else if currentSong s \<noteq> None then resumeSong s
      else (s, Finished))"

subsection \<open>\<open>playNext\<close>, \<open>playPrevious\<close>, \<open>handleSongEnd\<close>\<close>

text \<open>
  A callback made by \<open>useCallback\<close> reads the \<open>queue\<close>, \<open>currentIndex\<close> and
  \<open>isShuffled\<close> of the render that made it. \<open>playNext_in\<close> and \<open>playPrevious_in\<close> are
  the bodies over those values; \<open>rnd\<close> is the value of
  \<open>Math.floor(Math.random() * queue.length)\<close>. The user interface calls the callbacks of
  the latest render, whose values are those of the state: \<open>playNext\<close> and
  \<open>playPrevious\<close>.
\<close>

definition playNext_in :: "song list \<Rightarrow> int \<Rightarrow> bool \<Rightarrow> int \<Rightarrow> player \<Rightarrow> player \<times> pending" where
  "playNext_in q idx shuffled rnd s =
     (if length q = 0 then (s, Finished)
      else
        let nextIndex = (if shuffled then rnd else js_rem (idx + 1) (int (length q)))
        in case js_index q nextIndex of
             None \<Rightarrow> (s, Finished)
           | Some nextSong \<Rightarrow> playSong (Some nextSong) q nextIndex s)"

definition playPrevious_in :: "song list \<Rightarrow> int \<Rightarrow> bool \<Rightarrow> int \<Rightarrow> player \<Rightarrow> player \<times> pending" where
  "playPrevious_in q idx shuffled rnd s =
     (if length q = 0 then (s, Finished)
      else
        let prevIndex = (if shuffled then rnd
                         else if idx - 1 < 0 then int (length q) - 1 else idx - 1)
        in case js_index q prevIndex of
             None \<Rightarrow> (s, Finished)
           | Some prevSong \<Rightarrow> playSong (Some prevSong) q prevIndex s)"

definition playNext :: "int \<Rightarrow> player \<Rightarrow> player \<times> pending" where
  "playNext rnd s = playNext_in (queue s) (currentIndex s) (isShuffled s) rnd s"

definition playPrevious :: "int \<Rightarrow> player \<Rightarrow> player \<times> pending" where
  "playPrevious rnd s = playPrevious_in (queue s) (currentIndex s) (isShuffled s) rnd s"

text \<open>The values \<open>handleSongEnd\<close> closed over: its own \<open>isRepeat\<close> and
  \<open>currentSong\<close>, and those of the \<open>playNext\<close> it calls.\<close>

record closure =
  c_isRepeat :: bool
  c_currentSong :: "song option"
  c_queue :: "song list"
  c_currentIndex :: int
  c_isShuffled :: bool

definition handleSongEnd :: "closure \<Rightarrow> int \<Rightarrow> player \<Rightarrow> player \<times> pending" where
  "handleSongEnd c rnd s =
     (if c_isRepeat c then playSong (c_currentSong c) [] 0 s
      else playNext_in (c_queue c) (c_currentIndex c) (c_isShuffled c) rnd s)"

definition handleAudioError :: "player \<Rightarrow> player" where
  "handleAudioError s = (toast Error ''Failed to play audio'' s)\<lparr>isPlaying := False\<rparr>"

subsection \<open>The other operations\<close>

text \<open>
  \<open>seekTo\<close> writes the element's \<open>currentTime\<close> first. The setter of the element
  accepts a finite number only: on \<open>NaN\<close> or an infinity it throws a \<open>TypeError\<close>, which
  \<open>seekTo\<close> does not catch, so that \<open>setCurrentTime(time)\<close> is not reached.
\<close>

datatype error = TypeError

definition seekTo :: "number \<Rightarrow> player \<Rightarrow> error + player" where
  "seekTo time s =
     (case audioRef s of
        None \<Rightarrow> Inr (s\<lparr>currentTime := time\<rparr>)
      | Some a \<Rightarrow>
          (case time of
             Num t \<Rightarrow> Inr (s\<lparr>audioRef := Some (a\<lparr>currentTime_a := t\<rparr>), currentTime := time\<rparr>)
           | _ \<Rightarrow> Inl TypeError))"

text \<open>The effect on \<open>[volume, isMuted]\<close>.\<close>

definition apply_volume :: "player \<Rightarrow> player" where
  "apply_volume s =
     (case audioRef s of
        None \<Rightarrow> s
      | Some a \<Rightarrow> s\<lparr>audioRef := Some (a\<lparr>volume_a := (if isMuted s then 0 else volume s)\<rparr>)\<rparr>)"

definition setVolume :: "real \<Rightarrow> player \<Rightarrow> player" where
  "setVolume v s = apply_volume (s\<lparr>volume := v\<rparr>)"

definition toggleMute :: "player \<Rightarrow> player" where
  "toggleMute s = apply_volume (s\<lparr>isMuted := \<not> isMuted s\<rparr>)"

definition toggleShuffle :: "player \<Rightarrow> player" where
  "toggleShuffle s =
     toast Success (''Shuffle '' @ (if \<not> isShuffled s then ''enabled'' else ''disabled''))
       (s\<lparr>isShuffled := \<not> isShuffled s\<rparr>)"

definition toggleRepeat :: "player \<Rightarrow> player" where
  "toggleRepeat s =
     toast Success (''Repeat '' @ (if \<not> isRepeat s then ''enabled'' else ''disabled''))
       (s\<lparr>isRepeat := \<not> isRepeat s\<rparr>)"

text \<open>The argument of \<open>addToQueue\<close> is one track or an array of tracks.\<close>

datatype songs_arg = One song | Many "song list"

definition addToQueue :: "songs_arg \<Rightarrow> player \<Rightarrow> player" where
  "addToQueue songs s =
     (let songsArray = (case songs of One x \<Rightarrow> [x] | Many xs \<Rightarrow> xs)
      in toast Success (''Added '' @ string_of_nat (length songsArray) @ '' song(s) to queue'')
           (s\<lparr>queue := queue s @ songsArray\<rparr>))"

definition clearQueue :: "player \<Rightarrow> player" where
  "clearQueue s = toast Success ''Queue cleared'' (s\<lparr>queue := [], currentIndex := 0\<rparr>)"

subsection \<open>Timer callbacks and media events\<close>

definition poll_tick :: "player \<Rightarrow> player" where
  "poll_tick s =
     (case audioRef s of
        None \<Rightarrow> s
      | Some a \<Rightarrow> if \<not> paused a then s\<lparr>currentTime := Num (currentTime_a a)\<rparr> else s)"

definition simulated_tick :: "number \<Rightarrow> closure \<Rightarrow> int \<Rightarrow> player \<Rightarrow> player" where
  "simulated_tick d c rnd s =
     (let newTime = js_plus (currentTime s) (Num 1)
      in if js_ge newTime d then (fst (handleSongEnd c rnd s))\<lparr>currentTime := Num 0\<rparr>
         else s\<lparr>currentTime := newTime\<rparr>)"

text \<open>The timer \<open>i\<close> fires, if it is active.\<close>

definition tick :: "nat \<Rightarrow> closure \<Rightarrow> int \<Rightarrow> player \<Rightarrow> player" where
  "tick i c rnd s =
     (case map_of (timers s) i of
        None \<Rightarrow> s
      | Some Poll \<Rightarrow> poll_tick s
      | Some (Simulated d) \<Rightarrow> simulated_tick d c rnd s)"

text \<open>The \<open>error\<close> event of the element runs \<open>handleAudioError\<close>, registered when the
  provider mounts, and the \<open>onerror\<close> handler that \<open>playSong\<close> installs.\<close>

definition media_error :: "player \<Rightarrow> player" where
  "media_error s =
     (let s1 = handleAudioError s
      in case audioRef s1 of
           None \<Rightarrow> s1
         | Some a \<Rightarrow>
             if onerror a then
               (toast Error ''Failed to load audio preview. The track may not be available for streaming.'' s1)
                 \<lparr>isPlaying := False\<rparr>
             else s1)"

definition loadedmetadata :: "number \<Rightarrow> player \<Rightarrow> player" where
  "loadedmetadata d s =
     (case audioRef s of
        None \<Rightarrow> s
      | Some a \<Rightarrow> s\<lparr>audioRef := Some (a\<lparr>duration_a := d\<rparr>), duration := d\<rparr>)"

text \<open>The \<open>ended\<close> listener is the \<open>handleSongEnd\<close> of the first render, registered by
  the mount effect (its dependency list is empty).\<close>

definition first_closure :: closure where
  "first_closure = \<lparr>c_isRepeat = False, c_currentSong = None, c_queue = [],
                    c_currentIndex = 0, c_isShuffled = False\<rparr>"

definition media_ended :: "player \<Rightarrow> player" where
  "media_ended s = fst (handleSongEnd first_closure 0 s)"

subsection \<open>The provider as a transition system\<close>

definition first_render :: "string \<Rightarrow> player" where
  "first_render api =
     \<lparr>currentSong = None, isPlaying = False, currentTime = Num 0, duration = Num 0,
      volume = 0.7,
      isMuted = False, isShuffled = False, isRepeat = False, queue = [], currentIndex = 0,
      isPlayerMinimized = False, audioRef = None, intervalRef = None, timers = [],
      next_timer = 1, toasts = [], requests = [], API = api\<rparr>"

definition new_audio :: audio where
  "new_audio =
     \<lparr>src = [], crossOrigin = None, paused = True, currentTime_a = 0, duration_a = NaN,
      volume_a = 1, onerror = False, load_calls = 0, play_calls = 0\<rparr>"

text \<open>The two mount effects: create the element, then apply the volume.\<close>

definition mount :: "player \<Rightarrow> player" where
  "mount s =
     apply_volume
       (case audioRef s of
          None \<Rightarrow> s\<lparr>audioRef := Some (new_audio\<lparr>crossOrigin := Some ''anonymous''\<rparr>)\<rparr>
        | Some _ \<Rightarrow> s)"

definition init_player :: "string \<Rightarrow> player" where
  "init_player api = mount (first_render api)"

text \<open>
  Everything that can happen to a mounted provider: a call of one of the operations it
  exports, the completion of a suspended invocation, a timer firing, an event of the media
  element. A completion carries the values of the invocation it belongs to, and a timer
  callback the values it closed over: invocations overlap and callbacks outlive renders, so
  they are not read from the state.
\<close>

datatype event =
    PlaySong "song option" "song list" int
  | Searched song search_outcome
  | Loaded song string bool
  | Started song string outcome
  | Retried song string outcome
  | PauseSong
  | ResumeSong
  | Resumed number outcome
  | TogglePlayPause
  | PlayNext int
  | PlayPrevious int
  | SeekTo number
  | SetVolume real
  | ToggleMute
  | ToggleShuffle
  | ToggleRepeat
  | AddToQueue songs_arg
  | ClearQueue
  | SetIsPlayerMinimized bool
  | Tick nat closure int
  | MediaError
  | MediaEnded
  | LoadedMetadata number

fun step :: "event \<Rightarrow> player \<Rightarrow> player" where
  "step (PlaySong song q i) s = fst (playSong song q i s)"
| "step (Searched sg r) s = fst (playSong_searched sg r s)"
| "step (Loaded sg u ok) s = fst (playSong_loaded sg u ok s)"
| "step (Started sg u r) s = fst (playSong_started sg u r s)"
| "step (Retried sg u r) s = fst (playSong_retried sg u r s)"
| "step PauseSong s = pauseSong s"
| "step ResumeSong s = fst (resumeSong s)"
| "step (Resumed d r) s = resumeSong_started d r s"
| "step TogglePlayPause s = fst (togglePlayPause s)"
| "step (PlayNext rnd) s = fst (playNext rnd s)"
| "step (PlayPrevious rnd) s = fst (playPrevious rnd s)"
| "step (SeekTo t) s = (case seekTo t s of Inl e \<Rightarrow> s | Inr s' \<Rightarrow> s')"
| "step (SetVolume v) s = setVolume v s"
| "step ToggleMute s = toggleMute s"
| "step ToggleShuffle s = toggleShuffle s"
| "step ToggleRepeat s = toggleRepeat s"
| "step (AddToQueue songs) s = addToQueue songs s"
| "step ClearQueue s = clearQueue s"
| "step (SetIsPlayerMinimized b) s = s\<lparr>isPlayerMinimized := b\<rparr>"
| "step (Tick i c rnd) s = tick i c rnd s"
| "step MediaError s = media_error s"
| "step MediaEnded s = media_ended s"
| "step (LoadedMetadata d) s = loadedmetadata d s"

fun run :: "event list \<Rightarrow> player \<Rightarrow> player" where
  "run [] s = s"
| "run (e # es) s = run es (step e s)"

text \<open>One invocation of \<open>playSong\<close> run to its end with nothing in between: the values
  its suspension points resume with are given in advance.\<close>

record responses =
  search :: search_outcome
  canplay :: bool
  first_play :: outcome
  second_play :: outcome

fun continue :: "responses \<Rightarrow> player \<times> pending \<Rightarrow> player \<times> pending" where
  "continue r (s, Finished) = (s, Finished)"
| "continue r (s, AwaitSearch sg) = playSong_searched sg (search r) s"
| "continue r (s, AwaitCanplay sg u) = playSong_loaded sg u (canplay r) s"
| "continue r (s, AwaitPlay sg u) = playSong_started sg u (first_play r) s"
| "continue r (s, AwaitRetry sg u) = playSong_retried sg u (second_play r) s"
| "continue r (s, AwaitResume d) = (s, AwaitResume d)"

definition playSong_run :: "responses \<Rightarrow> song option \<Rightarrow> song list \<Rightarrow> int \<Rightarrow> player \<Rightarrow> player \<times> pending" where
  "playSong_run r song q i s = continue r (continue r (continue r (continue r (playSong song q i s))))"

text \<open>How many suspension points an invocation of \<open>playSong\<close> can still reach.\<close>

fun awaits_left :: "pending \<Rightarrow> nat" where
  "awaits_left Finished = 0"
| "awaits_left (AwaitRetry sg u) = 1"
| "awaits_left (AwaitPlay sg u) = 2"
| "awaits_left (AwaitCanplay sg u) = 3"
| "awaits_left (AwaitSearch sg) = 4"
| "awaits_left (AwaitResume d) = 5"

subsection \<open>Predicates of the properties\<close>

text \<open>At most one timer is active, and it is the one \<open>intervalRef\<close> holds; the browser
  hands out timer ids greater than zero.\<close>

definition timer_inv :: "player \<Rightarrow> bool" where
  "timer_inv s =
     (next_timer s \<noteq> 0 \<and> audioRef s \<noteq> None \<and>
      (case timers s of
         [] \<Rightarrow> True
       | [(i, k)] \<Rightarrow> intervalRef s = Some i \<and> i \<noteq> 0
       | _ \<Rightarrow> False))"

text \<open>The current index is an index into the queue whenever there is a current track.\<close>

definition valid_index :: "player \<Rightarrow> bool" where
  "valid_index s =
     (case currentSong s of
        None \<Rightarrow> True
      | Some c \<Rightarrow> 0 \<le> currentIndex s \<and> currentIndex s < int (length (queue s)))"

text \<open>The same, or the queue is the current track alone.\<close>

definition queue_inv :: "player \<Rightarrow> bool" where
  "queue_inv s =
     (case currentSong s of
        None \<Rightarrow> True
      | Some c \<Rightarrow> (0 \<le> currentIndex s \<and> currentIndex s < int (length (queue s)))
                  \<or> queue s = [c])"

text \<open>The events under which \<open>valid_index\<close> is kept: \<open>playSong\<close> called with an index into
  the queue it installs, and \<open>clearQueue\<close> called while there is no current track.\<close>

fun admissible :: "player \<Rightarrow> event \<Rightarrow> bool" where
  "admissible s (PlaySong (Some sg) q i) =
     (0 \<le> i \<and> i < int (length (if length q > 0 then q else [sg])))"
| "admissible s ClearQueue = (currentSong s = None)"
| "admissible s e = True"

text \<open>The completions of suspended \<open>playSong\<close> invocations.\<close>

fun is_completion :: "event \<Rightarrow> bool" where
  "is_completion (Searched sg r) = True"
| "is_completion (Loaded sg u ok) = True"
| "is_completion (Started sg u r) = True"
| "is_completion (Retried sg u r) = True"
| "is_completion e = False"


subsection \<open>Example tracks and states\<close>

definition track_A :: song where
  "track_A = \<lparr>name = ''Alpha'', artist = ''Ann'', duration_ms = 30000, preview_url = None\<rparr>"

definition track_B :: song where
  "track_B = \<lparr>name = ''Beta'', artist = ''Bob'', duration_ms = 30000,
              preview_url = Some ''http://cdn/b.mp3''\<rparr>"

definition track_C :: song where
  "track_C = \<lparr>name = ''Gamma'', artist = ''Cy'', duration_ms = 20000,
              preview_url = Some ''http://cdn/c.mp3''\<rparr>"

text \<open>\<open>playSong(B)\<close> run until B plays.\<close>

definition playing_B :: player where
  "playing_B =
     run [PlaySong (Some track_B) [] 0,
          Loaded track_B ''http://cdn/b.mp3'' True,
          Started track_B ''http://cdn/b.mp3'' Resolved]
       (init_player ''http://api'')"

text \<open>\<open>playSong(A)\<close>, whose search is still in flight when \<open>playSong(B)\<close> is called and
  runs until B plays.\<close>

definition A_then_B :: player where
  "A_then_B =
     run [PlaySong (Some track_A) [] 0,
          PlaySong (Some track_B) [] 0,
          Loaded track_B ''http://cdn/b.mp3'' True,
          Started track_B ''http://cdn/b.mp3'' Resolved]
       (init_player ''http://api'')"

text \<open>Every suspension point answers with a failure.\<close>

definition all_fail :: responses where
  "all_fail = \<lparr>search = SearchFailed, canplay = False,
               first_play = Rejected ''NotSupportedError'',
               second_play = Rejected ''NotSupportedError''\<rparr>"


text \<open>The answer of A's search arrives after B has started to play.\<close>

definition late_A :: player where
  "late_A = step (Searched track_A (SearchResults [Some ''http://itunes/a.m4a''])) A_then_B"

text \<open>The queue A, B, C with C current.\<close>

definition at_C_of_ABC :: player where
  "at_C_of_ABC =
     fst (playSong (Some track_C) [track_A, track_B, track_C] 2 (init_player ''http://api''))"

section \<open>Lemmas\<close>

subsection \<open>What each piece of code leaves alone\<close>

lemmas prim_defs = toast_def axios_get_def clearInterval_def setInterval_def audio_pause_def
  audio_set_src_def audio_load_def audio_play_def

lemma toast_frame [simp]:
  "currentSong (toast k m s) = currentSong s"
  "queue (toast k m s) = queue s"
  "currentIndex (toast k m s) = currentIndex s"
  "requests (toast k m s) = requests s"
  "audioRef (toast k m s) = audioRef s"
  "timers (toast k m s) = timers s"
  "intervalRef (toast k m s) = intervalRef s"
  "next_timer (toast k m s) = next_timer s"
  "isPlaying (toast k m s) = isPlaying s"
  "toasts (toast k m s) = toasts s @ [(k, m)]"
  by (simp_all add: toast_def)

lemma clear_if_set_frame [simp]:
  "currentSong (clear_if_set s) = currentSong s"
  "queue (clear_if_set s) = queue s"
  "currentIndex (clear_if_set s) = currentIndex s"
  "requests (clear_if_set s) = requests s"
  "audioRef (clear_if_set s) = audioRef s"
  "toasts (clear_if_set s) = toasts s"
  "isPlaying (clear_if_set s) = isPlaying s"
  "intervalRef (clear_if_set s) = intervalRef s"
  "next_timer (clear_if_set s) = next_timer s"
  by (simp_all add: clear_if_set_def clearInterval_def split: option.splits)

lemma track_progress_frame [simp]:
  "currentSong (track_progress k s) = currentSong s"
  "queue (track_progress k s) = queue s"
  "currentIndex (track_progress k s) = currentIndex s"
  "requests (track_progress k s) = requests s"
  "audioRef (track_progress k s) = audioRef s"
  "toasts (track_progress k s) = toasts s"
  "isPlaying (track_progress k s) = isPlaying s"
  by (simp_all add: track_progress_def setInterval_def Let_def)

lemma playSong_catch_frame [simp]:
  "currentSong (playSong_catch sg m s) = currentSong s"
  "queue (playSong_catch sg m s) = queue s"
  "currentIndex (playSong_catch sg m s) = currentIndex s"
  "requests (playSong_catch sg m s) = requests s"
  "audioRef (playSong_catch sg m s) = audioRef s"
  "timers (playSong_catch sg m s) = timers s"
  "intervalRef (playSong_catch sg m s) = intervalRef s"
  "next_timer (playSong_catch sg m s) = next_timer s"
  "isPlaying (playSong_catch sg m s) = False"
  by (simp_all add: playSong_catch_def)

lemma now_playing_frame [simp]:
  "currentSong (now_playing sg s) = currentSong s"
  "queue (now_playing sg s) = queue s"
  "currentIndex (now_playing sg s) = currentIndex s"
  "requests (now_playing sg s) = requests s"
  "audioRef (now_playing sg s) = audioRef s"
  by (simp_all add: now_playing_def Let_def split: option.splits)

lemma bind_source_frame [simp]:
  "currentSong (fst (bind_source sg u s)) = currentSong s"
  "queue (fst (bind_source sg u s)) = queue s"
  "currentIndex (fst (bind_source sg u s)) = currentIndex s"
  "requests (fst (bind_source sg u s)) = requests s"
  "timers (fst (bind_source sg u s)) = timers s"
  "intervalRef (fst (bind_source sg u s)) = intervalRef s"
  "next_timer (fst (bind_source sg u s)) = next_timer s"
  "toasts (fst (bind_source sg u s)) = toasts s"
  "isPlaying (fst (bind_source sg u s)) = isPlaying s"
  "(audioRef (fst (bind_source sg u s)) = None) = (audioRef s = None)"
  by (simp_all add: bind_source_def Let_def split: option.splits)

lemma playSong_fields:
  "currentSong (fst (playSong (Some sg) q i s)) = Some sg"
  "queue (fst (playSong (Some sg) q i s)) = (if length q > 0 then q else [sg])"
  "currentIndex (fst (playSong (Some sg) q i s)) = i"
  by (simp_all add: playSong_def Let_def axios_get_def)

lemma playSong_timers [simp]:
  "timers (fst (playSong song q i s)) = timers s"
  "intervalRef (fst (playSong song q i s)) = intervalRef s"
  "next_timer (fst (playSong song q i s)) = next_timer s"
  "(audioRef (fst (playSong song q i s)) = None) = (audioRef s = None)"
  by (simp_all add: playSong_def Let_def axios_get_def split: option.splits)

lemma completion_fields:
  "is_completion e \<Longrightarrow>
     currentSong (step e s) = currentSong s \<and> queue (step e s) = queue s
     \<and> currentIndex (step e s) = currentIndex s"
  by (cases e)
     (simp_all add: playSong_searched_def playSong_loaded_def playSong_started_def
        playSong_retried_def Let_def
        split: search_outcome.splits list.splits option.splits outcome.splits)

lemma run_completions_fields:
  "list_all is_completion es \<Longrightarrow>
     currentSong (run es s) = currentSong s \<and> queue (run es s) = queue s
     \<and> currentIndex (run es s) = currentIndex s"
proof (induction es arbitrary: s)
  case Nil
  show ?case by simp
next
  case (Cons e es)
  from Cons.prems have e: "is_completion e" and es: "list_all is_completion es"
    by simp_all
  from Cons.IH [OF es, of "step e s"] completion_fields [OF e, of s]
  show ?case by simp
qed

lemma init_player_simps:
  "currentSong (init_player api) = None"
  "queue (init_player api) = []"
  "currentIndex (init_player api) = 0"
  "isShuffled (init_player api) = False"
  "timers (init_player api) = []"
  "next_timer (init_player api) = 1"
  "audioRef (init_player api) \<noteq> None"
  by (simp_all add: init_player_def mount_def first_render_def apply_volume_def)

subsection \<open>The queue index\<close>

lemma valid_index_iff:
  "valid_index s =
     (currentSong s = None \<or> (0 \<le> currentIndex s \<and> currentIndex s < int (length (queue s))))"
  by (simp add: valid_index_def split: option.splits)

lemma valid_index_queue_inv: "valid_index s \<Longrightarrow> queue_inv s"
  by (simp add: valid_index_def queue_inv_def split: option.splits)

lemma js_index_Some: "js_index xs i = Some x \<Longrightarrow> 0 \<le> i \<and> i < int (length xs) \<and> x = xs ! nat i"
  by (auto simp: js_index_def split: if_splits)

lemma playSong_valid:
  "0 \<le> i \<Longrightarrow> i < int (length (if length q > 0 then q else [sg]))
     \<Longrightarrow> valid_index (fst (playSong (Some sg) q i s))"
  by (simp add: valid_index_iff playSong_fields)

lemma playNext_in_valid:
  "valid_index s \<Longrightarrow> valid_index (fst (playNext_in q idx sh rnd s))"
proof (cases "js_index q (if sh then rnd else js_rem (idx + 1) (int (length q)))")
  case None
  assume "valid_index s"
  with None show ?thesis by (simp add: playNext_in_def Let_def)
next
  case (Some x)
  assume v: "valid_index s"
  from js_index_Some [OF Some] have "q \<noteq> []" by auto
  with v Some js_index_Some [OF Some] show ?thesis
    by (simp add: playNext_in_def Let_def playSong_valid)
qed

lemma playPrevious_in_valid:
  "valid_index s \<Longrightarrow> valid_index (fst (playPrevious_in q idx sh rnd s))"
proof (cases "js_index q (if sh then rnd else if idx - 1 < 0 then int (length q) - 1 else idx - 1)")
  case None
  assume "valid_index s"
  with None show ?thesis by (simp add: playPrevious_in_def Let_def)
next
  case (Some x)
  assume v: "valid_index s"
  from js_index_Some [OF Some] have "q \<noteq> []" by auto
  with v Some js_index_Some [OF Some] show ?thesis
    by (simp add: playPrevious_in_def Let_def playSong_valid)
qed

lemma handleSongEnd_valid:
  "valid_index s \<Longrightarrow> valid_index (fst (handleSongEnd c rnd s))"
proof (cases "c_isRepeat c")
  case False
  assume "valid_index s"
  with False show ?thesis by (simp add: handleSongEnd_def playNext_in_valid)
next
  case True
  assume v: "valid_index s"
  show ?thesis
  proof (cases "c_currentSong c")
    case None
    with True v show ?thesis by (simp add: handleSongEnd_def playSong_def)
  next
    case (Some sg)
    with True show ?thesis by (simp add: handleSongEnd_def playSong_valid)
  qed
qed

lemma pauseSong_fields [simp]:
  "currentSong (pauseSong s) = currentSong s"
  "queue (pauseSong s) = queue s"
  "currentIndex (pauseSong s) = currentIndex s"
  by (simp_all add: pauseSong_def Let_def split: option.splits)

lemma resume_simulated_fields [simp]:
  "currentSong (resume_simulated d s) = currentSong s"
  "queue (resume_simulated d s) = queue s"
  "currentIndex (resume_simulated d s) = currentIndex s"
  by (simp_all add: resume_simulated_def)

lemma resumeSong_fields [simp]:
  "currentSong (fst (resumeSong s)) = currentSong s"
  "queue (fst (resumeSong s)) = queue s"
  "currentIndex (fst (resumeSong s)) = currentIndex s"
  by (simp_all add: resumeSong_def split: option.splits)

lemma resumeSong_started_fields [simp]:
  "currentSong (resumeSong_started d r s) = currentSong s"
  "queue (resumeSong_started d r s) = queue s"
  "currentIndex (resumeSong_started d r s) = currentIndex s"
  by (simp_all add: resumeSong_started_def split: outcome.splits)

lemma togglePlayPause_fields [simp]:
  "currentSong (fst (togglePlayPause s)) = currentSong s"
  "queue (fst (togglePlayPause s)) = queue s"
  "currentIndex (fst (togglePlayPause s)) = currentIndex s"
  by (simp_all add: togglePlayPause_def)

lemma tick_valid: "valid_index s \<Longrightarrow> valid_index (tick i c rnd s)"
proof -
  assume v: "valid_index s"
  have p: "valid_index (poll_tick s)"
    using v by (simp add: poll_tick_def valid_index_iff split: option.splits)
  have "valid_index (simulated_tick d c rnd s)" for d
    using handleSongEnd_valid [OF v, of c rnd] v
    by (simp add: simulated_tick_def Let_def valid_index_iff)
  with p v show ?thesis
    by (simp add: tick_def split: option.splits timer_kind.splits)
qed

lemma step_valid:
  assumes v: "valid_index s" and a: "admissible s e"
  shows "valid_index (step e s)"
proof (cases e)
  case (PlaySong song q i)
  show ?thesis
  proof (cases song)
    case None
    with PlaySong v show ?thesis by (simp add: playSong_def)
  next
    case (Some sg)
    with PlaySong a show ?thesis by (simp add: playSong_valid)
  qed
next
  case (PlayNext rnd)
  with v show ?thesis by (simp add: playNext_def playNext_in_valid)
next
  case (PlayPrevious rnd)
  with v show ?thesis by (simp add: playPrevious_def playPrevious_in_valid)
next
  case (AddToQueue songs)
  with v show ?thesis
    by (auto simp: addToQueue_def Let_def valid_index_iff split: option.splits songs_arg.splits)
next
  case ClearQueue
  with a show ?thesis by (simp add: clearQueue_def valid_index_iff)
next
  case (Tick i c rnd)
  with v show ?thesis by (simp add: tick_valid)
next
  case MediaEnded
  with v show ?thesis by (simp add: media_ended_def handleSongEnd_valid)
next
  case (Searched sg r)
  then have "is_completion e" by simp
  from completion_fields [OF this, of s] v show ?thesis by (simp add: valid_index_iff)
next
  case (Loaded sg u ok)
  then have "is_completion e" by simp
  from completion_fields [OF this, of s] v show ?thesis by (simp add: valid_index_iff)
next
  case (Started sg u r)
  then have "is_completion e" by simp
  from completion_fields [OF this, of s] v show ?thesis by (simp add: valid_index_iff)
next
  case (Retried sg u r)
  then have "is_completion e" by simp
  from completion_fields [OF this, of s] v show ?thesis by (simp add: valid_index_iff)
qed (use v in \<open>simp_all add: valid_index_iff seekTo_def setVolume_def toggleMute_def
       apply_volume_def toggleShuffle_def toggleRepeat_def media_error_def handleAudioError_def
       loadedmetadata_def Let_def split: option.splits number.splits\<close>)

subsection \<open>The timer\<close>

lemma timer_inv_iff:
  "timer_inv s =
     (next_timer s \<noteq> 0 \<and> audioRef s \<noteq> None \<and>
      (timers s = [] \<or> (\<exists>i k. timers s = [(i, k)] \<and> intervalRef s = Some i \<and> i \<noteq> 0)))"
  by (auto simp: timer_inv_def split: list.splits)

lemma timer_inv_frame:
  "timer_inv s \<Longrightarrow> timers s' = timers s \<Longrightarrow> intervalRef s' = intervalRef s
     \<Longrightarrow> next_timer s' = next_timer s \<Longrightarrow> (audioRef s' = None) = (audioRef s = None)
     \<Longrightarrow> timer_inv s'"
  by (simp add: timer_inv_iff)

lemma timer_inv_length: "timer_inv s \<Longrightarrow> length (timers s) \<le> 1"
  by (auto simp: timer_inv_iff)

lemma clear_if_set_timers: "timer_inv s \<Longrightarrow> timers (clear_if_set s) = []"
  by (auto simp: timer_inv_iff clear_if_set_def clearInterval_def split: option.splits)

lemma timer_inv_clear_if_set: "timer_inv s \<Longrightarrow> timer_inv (clear_if_set s)"
  using clear_if_set_timers [of s] by (simp add: timer_inv_iff)

lemma track_progress_timers:
  "timer_inv s \<Longrightarrow> timers (track_progress k s) = [(next_timer s, k)]"
  using clear_if_set_timers [of s]
  by (simp add: track_progress_def setInterval_def Let_def)

lemma timer_inv_track_progress: "timer_inv s \<Longrightarrow> timer_inv (track_progress k s)"
proof -
  assume i: "timer_inv s"
  have "intervalRef (track_progress k s) = Some (next_timer s)"
    and "next_timer (track_progress k s) = next_timer s + 1"
    by (simp_all add: track_progress_def setInterval_def Let_def)
  with i track_progress_timers [OF i, of k] show ?thesis
    by (simp add: timer_inv_iff)
qed

lemma timer_inv_playing: "timer_inv s \<Longrightarrow> timer_inv (s\<lparr>isPlaying := b\<rparr>)"
  by (simp add: timer_inv_iff)

lemma now_playing_timers:
  assumes i: "timer_inv s"
  shows "timer_inv (now_playing sg s)" and "map snd (timers (now_playing sg s)) = [Poll]"
proof -
  from i obtain a where a: "audioRef s = Some a" by (auto simp: timer_inv_iff)
  define d where "d = (if truthy_number (duration_a a) then duration_a a
                        else Num (duration_ms sg / 1000))"
  define s1 where "s1 = s\<lparr>isPlaying := True, duration := d\<rparr>"
  have s1: "timer_inv s1" using i by (simp add: s1_def timer_inv_iff)
  have eq: "now_playing sg s
            = toast Success (note_emoji @ '' Now playing: '' @ name sg @ '' by '' @ artist sg)
                (track_progress Poll s1)"
    by (simp add: now_playing_def a Let_def s1_def d_def)
  from timer_inv_track_progress [OF s1, of Poll]
  show "timer_inv (now_playing sg s)" unfolding eq by (simp add: timer_inv_iff)
  from track_progress_timers [OF s1, of Poll]
  show "map snd (timers (now_playing sg s)) = [Poll]" unfolding eq by simp
qed

lemma resume_simulated_timers:
  assumes i: "timer_inv s"
  shows "timer_inv (resume_simulated d s)"
    and "map snd (timers (resume_simulated d s)) = [Simulated d]"
proof -
  have s1: "timer_inv (s\<lparr>isPlaying := True\<rparr>)" using i by (rule timer_inv_playing)
  from timer_inv_track_progress [OF s1, of "Simulated d"]
  show "timer_inv (resume_simulated d s)" by (simp add: resume_simulated_def timer_inv_iff)
  from track_progress_timers [OF s1, of "Simulated d"]
  show "map snd (timers (resume_simulated d s)) = [Simulated d]"
    by (simp add: resume_simulated_def)
qed

lemma resumeSong_started_timers:
  assumes i: "timer_inv s"
  shows "timer_inv (resumeSong_started d r s)"
    and "map snd (timers (resumeSong_started d r s))
         = [case r of Resolved \<Rightarrow> Poll | Rejected m \<Rightarrow> Simulated d]"
proof -
  have s1: "timer_inv (s\<lparr>isPlaying := True\<rparr>)" using i by (rule timer_inv_playing)
  from timer_inv_track_progress [OF s1, of Poll] resume_simulated_timers(1) [OF i, of d]
  show "timer_inv (resumeSong_started d r s)"
    by (simp add: resumeSong_started_def timer_inv_iff split: outcome.splits)
  from track_progress_timers [OF s1, of Poll] resume_simulated_timers(2) [OF i, of d]
  show "map snd (timers (resumeSong_started d r s))
        = [case r of Resolved \<Rightarrow> Poll | Rejected m \<Rightarrow> Simulated d]"
    by (simp add: resumeSong_started_def split: outcome.splits)
qed

lemma pauseSong_timers:
  assumes i: "timer_inv s"
  shows "timer_inv (pauseSong s)" and "timers (pauseSong s) = []"
proof -
  from i obtain a where a: "audioRef s = Some a" by (auto simp: timer_inv_iff)
  define s1 where "s1 = s\<lparr>audioRef := Some (audio_pause a), isPlaying := False\<rparr>"
  have s1: "timer_inv s1" using i by (simp add: s1_def timer_inv_iff)
  have eq: "pauseSong s = clear_if_set s1" by (simp add: pauseSong_def a s1_def)
  from timer_inv_clear_if_set [OF s1] show "timer_inv (pauseSong s)" by (simp add: eq)
  from clear_if_set_timers [OF s1] show "timers (pauseSong s) = []" by (simp add: eq)
qed

lemma timer_inv_resumeSong: "timer_inv s \<Longrightarrow> timer_inv (fst (resumeSong s))"
  using resume_simulated_timers(1) [of s "duration s"]
  by (auto simp: resumeSong_def timer_inv_iff split: option.splits)

lemma timer_inv_playSong: "timer_inv s \<Longrightarrow> timer_inv (fst (playSong song q i s))"
  by (simp add: timer_inv_iff)

lemma timer_inv_playNext_in: "timer_inv s \<Longrightarrow> timer_inv (fst (playNext_in q idx sh rnd s))"
  by (simp add: playNext_in_def Let_def timer_inv_playSong split: option.splits)

lemma timer_inv_playPrevious_in:
  "timer_inv s \<Longrightarrow> timer_inv (fst (playPrevious_in q idx sh rnd s))"
  by (simp add: playPrevious_in_def Let_def timer_inv_playSong split: option.splits)

lemma timer_inv_handleSongEnd: "timer_inv s \<Longrightarrow> timer_inv (fst (handleSongEnd c rnd s))"
  by (simp add: handleSongEnd_def timer_inv_playSong timer_inv_playNext_in)

lemma timer_inv_tick: "timer_inv s \<Longrightarrow> timer_inv (tick i c rnd s)"
proof -
  assume v: "timer_inv s"
  have p: "timer_inv (poll_tick s)"
    using v by (simp add: poll_tick_def timer_inv_iff split: option.splits)
  have "timer_inv (simulated_tick d c rnd s)" for d
    using timer_inv_handleSongEnd [OF v, of c rnd] v
    by (simp add: simulated_tick_def Let_def timer_inv_iff)
  with p v show ?thesis
    by (simp add: tick_def split: option.splits timer_kind.splits)
qed

lemma playSong_searched_timers [simp]:
  "timers (fst (playSong_searched sg r s)) = timers s"
  "intervalRef (fst (playSong_searched sg r s)) = intervalRef s"
  "next_timer (fst (playSong_searched sg r s)) = next_timer s"
  "(audioRef (fst (playSong_searched sg r s)) = None) = (audioRef s = None)"
  by (simp_all add: playSong_searched_def Let_def split: search_outcome.splits list.splits)

lemma playSong_loaded_timers [simp]:
  "timers (fst (playSong_loaded sg u ok s)) = timers s"
  "intervalRef (fst (playSong_loaded sg u ok s)) = intervalRef s"
  "next_timer (fst (playSong_loaded sg u ok s)) = next_timer s"
  "(audioRef (fst (playSong_loaded sg u ok s)) = None) = (audioRef s = None)"
  by (simp_all add: playSong_loaded_def split: option.splits)

lemma timer_inv_searched: "timer_inv s \<Longrightarrow> timer_inv (fst (playSong_searched sg r s))"
  by (simp add: timer_inv_iff)

lemma timer_inv_loaded: "timer_inv s \<Longrightarrow> timer_inv (fst (playSong_loaded sg u ok s))"
  by (simp add: timer_inv_iff)

lemma timer_inv_started: "timer_inv s \<Longrightarrow> timer_inv (fst (playSong_started sg u r s))"
  using now_playing_timers(1) [of s sg]
  by (auto simp: playSong_started_def Let_def timer_inv_iff split: outcome.splits option.splits)

lemma timer_inv_retried: "timer_inv s \<Longrightarrow> timer_inv (fst (playSong_retried sg u r s))"
  using now_playing_timers(1) [of s sg]
  by (auto simp: playSong_retried_def timer_inv_iff split: outcome.splits)

lemma timer_inv_step: "timer_inv s \<Longrightarrow> timer_inv (step e s)"
proof (cases e)
  case (Tick i c rnd)
  assume "timer_inv s"
  with Tick show ?thesis by (simp add: timer_inv_tick)
next
  case TogglePlayPause
  assume "timer_inv s"
  with TogglePlayPause show ?thesis
    by (simp add: togglePlayPause_def pauseSong_timers(1) timer_inv_resumeSong)
qed (simp_all add: timer_inv_playSong timer_inv_searched timer_inv_loaded timer_inv_started
       timer_inv_retried pauseSong_timers(1) timer_inv_resumeSong resumeSong_started_timers(1)
       playNext_def playPrevious_def timer_inv_playNext_in timer_inv_playPrevious_in
       media_ended_def timer_inv_handleSongEnd,
     simp_all add: timer_inv_iff seekTo_def setVolume_def toggleMute_def
       apply_volume_def toggleShuffle_def toggleRepeat_def media_error_def handleAudioError_def
       loadedmetadata_def addToQueue_def clearQueue_def Let_def
       split: option.splits number.splits)

lemma timer_inv_init: "timer_inv (init_player api)"
  by (simp add: timer_inv_iff init_player_simps)

lemma timer_inv_run: "timer_inv s \<Longrightarrow> timer_inv (run es s)"
  by (induction es arbitrary: s) (simp_all add: timer_inv_step)

subsection \<open>The example states\<close>

lemmas example_defs = init_player_def mount_def first_render_def apply_volume_def new_audio_def
  playSong_def truthy_def bind_source_def prim_defs playSong_loaded_def playSong_started_def
  now_playing_def track_progress_def clear_if_set_def track_A_def track_B_def track_C_def

lemma init_player_more:
  "requests (init_player api) = []"
  "isPlaying (init_player api) = False"
  "API (init_player api) = api"
  by (simp_all add: init_player_def mount_def first_render_def apply_volume_def)

lemma playing_B_fields:
  "currentSong playing_B = Some track_B"
  "queue playing_B = [track_B]"
  "currentIndex playing_B = 0"
  "isShuffled playing_B = False"
  "isPlaying playing_B = True"
  by (simp_all add: playing_B_def example_defs Let_def)

lemma A_then_B_fields:
  "currentSong A_then_B = Some track_B"
  "isPlaying A_then_B = True"
  "map_option src (audioRef A_then_B) = Some ''http://cdn/b.mp3''"
  "map_option load_calls (audioRef A_then_B) = Some 1"
  by (simp_all add: A_then_B_def example_defs Let_def)

lemma playSong_isPlaying: "isPlaying (fst (playSong (Some sg) q i s)) = False"
  by (simp add: playSong_def Let_def axios_get_def)


lemma playNext_in_seq:
  "q \<noteq> [] \<Longrightarrow> js_rem (idx + 1) (int (length q)) = p \<Longrightarrow> 0 \<le> p \<Longrightarrow> p < int (length q)
     \<Longrightarrow> playNext_in q idx False rnd s = playSong (Some (q ! nat p)) q p s"
  by (simp add: playNext_in_def Let_def js_index_def)

lemma playPrevious_in_seq:
  "q \<noteq> [] \<Longrightarrow> (if idx - 1 < 0 then int (length q) - 1 else idx - 1) = p \<Longrightarrow> 0 \<le> p
     \<Longrightarrow> p < int (length q)
     \<Longrightarrow> playPrevious_in q idx False rnd s = playSong (Some (q ! nat p)) q p s"
  by (simp add: playPrevious_in_def Let_def js_index_def)

lemma playNext_single_entry: "queue s = [a] \<Longrightarrow> playNext 0 s = playSong (Some a) [a] 0 s"
  by (simp add: playNext_def playNext_in_def js_rem_def js_index_def Let_def)

subsection \<open>One invocation run to its end\<close>

lemma continue_Finished [simp]: "continue r (s, Finished) = (s, Finished)"
  by simp

lemma playSong_loaded_frame [simp]:
  "requests (fst (playSong_loaded sg u ok s)) = requests s"
  by (simp add: playSong_loaded_def split: option.splits)

lemma playSong_started_frame [simp]:
  "requests (fst (playSong_started sg u r s)) = requests s"
  by (simp add: playSong_started_def Let_def split: outcome.splits option.splits)

lemma playSong_retried_frame [simp]:
  "requests (fst (playSong_retried sg u r s)) = requests s"
  by (simp add: playSong_retried_def split: outcome.splits)

text \<open>An invocation that has its source: what it waits for, and what stays as it is.\<close>

lemma continue_bound:
  assumes "snd p \<in> {Finished, AwaitCanplay sg u, AwaitPlay sg u, AwaitRetry sg u}"
    and "map_option src (audioRef (fst p)) = map_option (\<lambda>a. u) (audioRef (fst p))"
  shows "snd (continue r p) \<in> {Finished, AwaitCanplay sg u, AwaitPlay sg u, AwaitRetry sg u}"
    and "map_option src (audioRef (fst (continue r p)))
         = map_option (\<lambda>a. u) (audioRef (fst (continue r p)))"
    and "requests (fst (continue r p)) = requests (fst p)"
    and "(audioRef (fst (continue r p)) = None) = (audioRef (fst p) = None)"
proof -
  obtain s w where p: "p = (s, w)" by (cases p)
  from assms(1) p consider "w = Finished" | "w = AwaitCanplay sg u" | "w = AwaitPlay sg u"
    | "w = AwaitRetry sg u" by auto
  then have "snd (continue r p) \<in> {Finished, AwaitCanplay sg u, AwaitPlay sg u, AwaitRetry sg u}
    \<and> map_option src (audioRef (fst (continue r p)))
         = map_option (\<lambda>a. u) (audioRef (fst (continue r p)))
    \<and> requests (fst (continue r p)) = requests (fst p)
    \<and> (audioRef (fst (continue r p)) = None) = (audioRef (fst p) = None)"
  proof cases
    case 1
    with p assms(2) show ?thesis by simp
  next
    case 2
    with p assms(2) show ?thesis
      by (auto simp: playSong_loaded_def audio_play_def split: option.splits)
  next
    case 3
    with p assms(2) show ?thesis
      by (auto simp: playSong_started_def Let_def audio_play_def audio_load_def audio_set_src_def
            split: option.splits outcome.splits)
  next
    case 4
    with p assms(2) show ?thesis
      by (auto simp: playSong_retried_def split: outcome.splits)
  qed
  then show "snd (continue r p) \<in> {Finished, AwaitCanplay sg u, AwaitPlay sg u, AwaitRetry sg u}"
    and "map_option src (audioRef (fst (continue r p)))
         = map_option (\<lambda>a. u) (audioRef (fst (continue r p)))"
    and "requests (fst (continue r p)) = requests (fst p)"
    and "(audioRef (fst (continue r p)) = None) = (audioRef (fst p) = None)"
    by simp_all
qed

lemma playSong_direct:
  assumes "preview_url sg = Some u" and "u \<noteq> []"
  shows "playSong (Some sg) q i s
         = bind_source sg u (s\<lparr>currentSong := Some sg,
                               queue := (if length q > 0 then q else [sg]),
                               currentIndex := i, isPlaying := False\<rparr>)"
  using assms by (simp add: playSong_def truthy_def Let_def)

lemma bind_source_result:
  "u \<noteq> [] \<Longrightarrow> audioRef s = Some a \<Longrightarrow>
     snd (bind_source sg u s) = AwaitCanplay sg u
     \<and> map_option src (audioRef (fst (bind_source sg u s))) = Some u
     \<and> map_option crossOrigin (audioRef (fst (bind_source sg u s))) = Some (Some ''anonymous'')
     \<and> map_option load_calls (audioRef (fst (bind_source sg u s))) = Some (load_calls a + 1)
     \<and> map_option play_calls (audioRef (fst (bind_source sg u s))) = Some (play_calls a)"
  by (simp add: bind_source_def Let_def audio_pause_def audio_set_src_def audio_load_def)

lemma bind_source_None: "audioRef s = None \<Longrightarrow> bind_source sg u s = (s, Finished)"
  by (simp add: bind_source_def)


text \<open>An invocation of \<open>playSong\<close> ends after at most four suspension points.\<close>

lemma bind_source_awaits: "awaits_left (snd (bind_source sg u s)) \<le> 3"
  by (simp add: bind_source_def Let_def split: option.splits)

lemma playSong_awaits: "awaits_left (snd (playSong song q i s)) \<le> 4"
  using bind_source_awaits [of "the song" "the (preview_url (the song))"]
  by (cases song) (simp_all add: playSong_def Let_def le_trans [OF bind_source_awaits])

lemma continue_awaits:
  assumes "awaits_left (snd p) \<le> Suc n" and "n < 4"
  shows "awaits_left (snd (continue r p)) \<le> n"
proof -
  obtain s w where p: "p = (s, w)" by (cases p)
  show ?thesis
  proof (cases w)
    case Finished
    with p show ?thesis by simp
  next
    case (AwaitSearch sg)
    with p assms have n: "n = 3" by simp
    have "awaits_left (snd (playSong_searched sg (search r) s)) \<le> 3"
      by (simp add: playSong_searched_def Let_def bind_source_awaits
            split: search_outcome.splits list.splits)
    with p AwaitSearch n show ?thesis by simp
  next
    case (AwaitCanplay sg u)
    with p assms show ?thesis
      by (simp add: playSong_loaded_def split: option.splits)
  next
    case (AwaitPlay sg u)
    with p assms show ?thesis
      by (simp add: playSong_started_def Let_def split: option.splits outcome.splits)
  next
    case (AwaitRetry sg u)
    with p assms show ?thesis
      by (simp add: playSong_retried_def split: outcome.splits)
  next
    case (AwaitResume d)
    with p assms show ?thesis by simp
  qed
qed

lemma playSong_run_finishes: "snd (playSong_run r song q i s) = Finished"
proof -
  have 4: "awaits_left (snd (playSong song q i s)) \<le> Suc 3"
    using playSong_awaits [of song q i s] by simp
  have 3: "awaits_left (snd (continue r (playSong song q i s))) \<le> Suc 2"
    using continue_awaits [OF 4, of r] by simp
  have 2: "awaits_left (snd (continue r (continue r (playSong song q i s)))) \<le> Suc 1"
    using continue_awaits [OF 3, of r] by simp
  have 1: "awaits_left (snd (continue r (continue r (continue r (playSong song q i s))))) \<le> Suc 0"
    using continue_awaits [OF 2, of r] by simp
  have "awaits_left (snd (playSong_run r song q i s)) \<le> 0"
    unfolding playSong_run_def using continue_awaits [OF 1, of r] by simp
  then show ?thesis by (cases "snd (playSong_run r song q i s)") simp_all
qed

section \<open>Properties of the specification\<close>

text \<open>
  C1. At every moment at most one polling timer is active. Whatever has happened since the
  provider mounted (\<open>evs\<close>), the browser holds at most one active timer; \<open>pauseSong\<close>
  leaves none; and each place that starts progress tracking (after the first and the second
  \<open>play()\<close> of \<open>playSong\<close>, after the \<open>play()\<close> of \<open>resumeSong\<close>, in its \<open>catch\<close> and in
  its simulated branch) leaves exactly the timer it has just installed, so that the one
  installed before has been cancelled.
\<close>

theorem one_polling_timer:
  "let s = run evs (init_player api) in
     length (timers s) \<le> 1
     \<and> timers (pauseSong s) = []
     \<and> map snd (timers (fst (playSong_started sg u Resolved s))) = [Poll]
     \<and> map snd (timers (fst (playSong_retried sg u Resolved s))) = [Poll]
     \<and> map snd (timers (resumeSong_started d Resolved s)) = [Poll]
     \<and> map snd (timers (resumeSong_started d (Rejected m) s)) = [Simulated d]
     \<and> map snd (timers (resume_simulated d s)) = [Simulated d]"
proof -
  have i: "timer_inv (run evs (init_player api))"
    by (rule timer_inv_run) (rule timer_inv_init)
  show ?thesis
    using timer_inv_length [OF i] pauseSong_timers(2) [OF i] now_playing_timers(2) [OF i, of sg]
      resumeSong_started_timers(2) [OF i, of d Resolved]
      resumeSong_started_timers(2) [OF i, of d "Rejected m"]
      resume_simulated_timers(2) [OF i, of d]
    by (simp add: Let_def playSong_started_def playSong_retried_def)
qed

text \<open>
  C2, as amended. \<open>playSong(B)\<close> makes B the current track, with its queue and index, and
  no completion of a suspended \<open>playSong\<close> invocation, of B or of an earlier track,
  changes the current track, the queue or the index afterwards.
\<close>

theorem latest_play_keeps_track:
  "list_all is_completion es \<Longrightarrow>
     currentSong (run es (fst (playSong (Some b) q i s))) = Some b
     \<and> queue (run es (fst (playSong (Some b) q i s))) = (if length q > 0 then q else [b])
     \<and> currentIndex (run es (fst (playSong (Some b) q i s))) = i"
  using run_completions_fields [of es "fst (playSong (Some b) q i s)"]
  by (simp add: playSong_fields)

theorem latest_play_keeps_track_witness:
  "list_all is_completion [Searched track_A (SearchResults [Some ''http://itunes/a.m4a''])]
   \<and> currentSong (run [Searched track_A (SearchResults [Some ''http://itunes/a.m4a''])]
        (fst (playSong (Some track_B) [] 0 (init_player ''http://api'')))) = Some track_B"
proof -
  have h: "list_all is_completion [Searched track_A (SearchResults [Some ''http://itunes/a.m4a''])]"
    by simp
  show ?thesis
    using h latest_play_keeps_track [OF h, of track_B "[]" 0 "init_player ''http://api''"]
    by simp
qed

text \<open>
  C2 as stated fails: there is no token. B plays; then the answer of A's search arrives,
  and the continuation of \<open>playSong(A)\<close> runs on: it binds the element to A's proxied
  preview and loads it, while the current track is B.
\<close>

theorem late_resolution_counterexample:
  "currentSong A_then_B = Some track_B
   \<and> currentSong late_A = Some track_B
   \<and> late_A \<noteq> A_then_B
   \<and> map_option src (audioRef A_then_B) = Some ''http://cdn/b.mp3''
   \<and> map_option src (audioRef late_A)
       = Some (''http://api/audio/proxy?url='' @ encodeURIComponent ''http://itunes/a.m4a'')"
proof -
  have api: "API A_then_B = ''http://api''"
    by (simp add: A_then_B_def example_defs Let_def)
  have a: "audioRef A_then_B \<noteq> None"
    using A_then_B_fields(3) by auto
  have src: "map_option src (audioRef late_A)
       = Some (''http://api/audio/proxy?url='' @ encodeURIComponent ''http://itunes/a.m4a'')"
    using a
    by (auto simp: late_A_def playSong_searched_def truthy_def api bind_source_def Let_def
          audio_set_src_def audio_load_def audio_pause_def)
  have cur: "currentSong late_A = Some track_B"
    using completion_fields [of "Searched track_A (SearchResults [Some ''http://itunes/a.m4a''])" A_then_B]
    by (simp add: late_A_def A_then_B_fields)
  have "map_option src (audioRef late_A) \<noteq> map_option src (audioRef A_then_B)"
    by (simp add: src A_then_B_fields)
  then have "late_A \<noteq> A_then_B" by auto
  with src cur show ?thesis by (simp add: A_then_B_fields)
qed

text \<open>
  C3, as amended. On an empty queue \<open>playNext\<close> and \<open>playPrevious\<close> return at once: the
  whole state is unchanged and nothing is left suspended.
\<close>

theorem empty_queue_noop:
  "queue s = [] \<Longrightarrow> playNext rnd s = (s, Finished) \<and> playPrevious rnd s = (s, Finished)"
  by (simp add: playNext_def playPrevious_def playNext_in_def playPrevious_in_def)

theorem empty_queue_noop_witness:
  "queue (init_player ''http://api'') = []
   \<and> playNext 0 (init_player ''http://api'') = (init_player ''http://api'', Finished)
   \<and> playPrevious 0 (init_player ''http://api'') = (init_player ''http://api'', Finished)"
proof -
  have h: "queue (init_player ''http://api'') = []" by (simp add: init_player_simps)
  show ?thesis using h empty_queue_noop [OF h, of 0] by simp
qed

text \<open>
  C3 as stated fails on a queue of length one: the guard is \<open>queue.length === 0\<close>, so
  \<open>playNext\<close> calls \<open>playSong\<close> on the only entry, which clears the playing flag.
\<close>

theorem single_entry_counterexample:
  "length (queue playing_B) = 1
   \<and> isPlaying playing_B
   \<and> \<not> isPlaying (fst (playNext 0 playing_B))
   \<and> fst (playNext 0 playing_B) \<noteq> playing_B"
proof -
  have n: "playNext 0 playing_B = playSong (Some track_B) [track_B] 0 playing_B"
    by (simp add: playNext_def playNext_in_def playing_B_fields js_rem_def js_index_def)
  have f: "\<not> isPlaying (fst (playNext 0 playing_B))"
    by (simp add: n playSong_isPlaying)
  then have "fst (playNext 0 playing_B) \<noteq> playing_B"
    using playing_B_fields(5) by auto
  with f show ?thesis by (simp add: playing_B_fields)
qed

text \<open>
  C4. With shuffle off, on a queue of \<open>n \<ge> 2\<close> entries and a current index \<open>i\<close> in
  \<open>[0, n)\<close>, \<open>playNext\<close> is \<open>playSong\<close> on the entry at \<open>(i + 1) mod n\<close> and
  \<open>playPrevious\<close> is \<open>playSong\<close> on the entry at \<open>(i - 1 + n) mod n\<close>, each with the
  same queue and the new index, which become the queue and the index of the state.
\<close>

theorem sequential_round_robin:
  assumes "2 \<le> length (queue s)" and "0 \<le> currentIndex s"
    and "currentIndex s < int (length (queue s))" and "\<not> isShuffled s"
  shows "let n = int (length (queue s)); i = currentIndex s;
             nx = (i + 1) mod n; pv = (i - 1 + n) mod n
         in playNext rnd s = playSong (Some (queue s ! nat nx)) (queue s) nx s
            \<and> playPrevious rnd s = playSong (Some (queue s ! nat pv)) (queue s) pv s
            \<and> currentIndex (fst (playNext rnd s)) = nx
            \<and> queue (fst (playNext rnd s)) = queue s
            \<and> currentIndex (fst (playPrevious rnd s)) = pv
            \<and> queue (fst (playPrevious rnd s)) = queue s"
proof -
  define n where "n = int (length (queue s))"
  define i where "i = currentIndex s"
  define nx where "nx = (i + 1) mod n"
  define pv where "pv = (i - 1 + n) mod n"
  have n: "2 \<le> n" and i: "0 \<le> i" "i < n"
    using assms by (simp_all add: n_def i_def)
  have q: "queue s \<noteq> []" using assms by auto
  have nx: "js_rem (i + 1) n = nx" "0 \<le> nx" "nx < n"
    using n i by (simp_all add: js_rem_def nx_def)
  have pv: "(if i - 1 < 0 then n - 1 else i - 1) = pv" "0 \<le> pv" "pv < n"
  proof -
    show "(if i - 1 < 0 then n - 1 else i - 1) = pv"
    proof (cases "i = 0")
      case True
      have "(n - 1) mod n = n - 1" using n by (intro mod_pos_pos_trivial) simp_all
      with True show ?thesis by (simp add: pv_def)
    next
      case False
      with i have "0 \<le> i - 1" "i - 1 < n" by simp_all
      then have "(i - 1) mod n = i - 1" by (rule mod_pos_pos_trivial)
      with False i show ?thesis by (simp add: pv_def)
    qed
    show "0 \<le> pv" "pv < n" using n by (simp_all add: pv_def)
  qed
  have "playNext_in (queue s) i False rnd s = playSong (Some (queue s ! nat nx)) (queue s) nx s"
    using q nx(1) [unfolded n_def] nx(2) nx(3) [unfolded n_def] by (rule playNext_in_seq)
  then have a: "playNext rnd s = playSong (Some (queue s ! nat nx)) (queue s) nx s"
    using assms(4) by (simp add: playNext_def i_def)
  have "playPrevious_in (queue s) i False rnd s
        = playSong (Some (queue s ! nat pv)) (queue s) pv s"
    using q pv(1) [unfolded n_def] pv(2) pv(3) [unfolded n_def] by (rule playPrevious_in_seq)
  then have b: "playPrevious rnd s = playSong (Some (queue s ! nat pv)) (queue s) pv s"
    using assms(4) by (simp add: playPrevious_def i_def)
  have "playNext rnd s = playSong (Some (queue s ! nat nx)) (queue s) nx s
        \<and> playPrevious rnd s = playSong (Some (queue s ! nat pv)) (queue s) pv s
        \<and> currentIndex (fst (playNext rnd s)) = nx
        \<and> queue (fst (playNext rnd s)) = queue s
        \<and> currentIndex (fst (playPrevious rnd s)) = pv
        \<and> queue (fst (playPrevious rnd s)) = queue s"
    using q by (simp add: a b playSong_fields)
  then show ?thesis
    unfolding Let_def n_def [symmetric] i_def [symmetric] nx_def [symmetric] pv_def [symmetric] .
qed

theorem sequential_round_robin_witness:
  "2 \<le> length (queue at_C_of_ABC) \<and> 0 \<le> currentIndex at_C_of_ABC
   \<and> currentIndex at_C_of_ABC < int (length (queue at_C_of_ABC)) \<and> \<not> isShuffled at_C_of_ABC
   \<and> currentIndex (fst (playNext 0 at_C_of_ABC)) = 0
   \<and> currentIndex (fst (playPrevious 0 at_C_of_ABC)) = 1"
proof -
  have f: "queue at_C_of_ABC = [track_A, track_B, track_C]" "currentIndex at_C_of_ABC = 2"
    "isShuffled at_C_of_ABC = False"
    by (simp_all add: at_C_of_ABC_def playSong_fields example_defs Let_def)
  have h: "2 \<le> length (queue at_C_of_ABC)" "0 \<le> currentIndex at_C_of_ABC"
    "currentIndex at_C_of_ABC < int (length (queue at_C_of_ABC))" "\<not> isShuffled at_C_of_ABC"
    by (simp_all add: f)
  show ?thesis
    using h sequential_round_robin [OF h, of 0] by (simp add: f Let_def playSong_fields)
qed

text \<open>
  C5. For a track whose \<open>preview_url\<close> is present and not empty, \<open>playSong\<close> requests
  nothing with \<open>axios.get\<close>, at its start or in any of its continuations; the URL it binds
  to the element and carries on with is the \<open>preview_url\<close> itself, and it is still the
  element's source when the invocation has ended, which it does.
\<close>

theorem direct_preview_no_search:
  assumes "preview_url sg = Some u" and "u \<noteq> []"
  shows "requests (fst (playSong (Some sg) q i s)) = requests s
         \<and> snd (playSong_run r (Some sg) q i s) = Finished
         \<and> requests (fst (playSong_run r (Some sg) q i s)) = requests s
         \<and> (case audioRef s of
               None \<Rightarrow> snd (playSong (Some sg) q i s) = Finished
             | Some a \<Rightarrow>
                 snd (playSong (Some sg) q i s) = AwaitCanplay sg u
                 \<and> map_option src (audioRef (fst (playSong (Some sg) q i s))) = Some u
                 \<and> map_option src (audioRef (fst (playSong_run r (Some sg) q i s))) = Some u)"
proof -
  define s1 where "s1 = s\<lparr>currentSong := Some sg, queue := (if length q > 0 then q else [sg]),
                            currentIndex := i, isPlaying := False\<rparr>"
  define p0 where "p0 = playSong (Some sg) q i s"
  have p0: "p0 = bind_source sg u s1"
    unfolding p0_def s1_def using assms by (rule playSong_direct)
  have a1: "audioRef s1 = audioRef s" by (simp add: s1_def)
  have r0: "requests (fst p0) = requests s"
    and n0: "(audioRef (fst p0) = None) = (audioRef s = None)"
    by (simp_all add: p0 s1_def)
  have "snd p0 \<in> {Finished, AwaitCanplay sg u, AwaitPlay sg u, AwaitRetry sg u}
        \<and> map_option src (audioRef (fst p0)) = map_option (\<lambda>a. u) (audioRef (fst p0))"
  proof (cases "audioRef s1")
    case None
    then show ?thesis by (simp add: p0 bind_source_None)
  next
    case (Some a)
    from bind_source_result [OF assms(2) Some, of sg] show ?thesis
      unfolding p0 by auto
  qed
  then have w0: "snd p0 \<in> {Finished, AwaitCanplay sg u, AwaitPlay sg u, AwaitRetry sg u}"
    and b0: "map_option src (audioRef (fst p0)) = map_option (\<lambda>a. u) (audioRef (fst p0))"
    by simp_all
  note c1 = continue_bound [OF w0 b0, of r]
  note c2 = continue_bound [OF c1(1) c1(2), of r]
  note c3 = continue_bound [OF c2(1) c2(2), of r]
  note c4 = continue_bound [OF c3(1) c3(2), of r]
  have run: "playSong_run r (Some sg) q i s = continue r (continue r (continue r (continue r p0)))"
    by (simp add: playSong_run_def p0_def)
  have rq: "requests (fst (playSong_run r (Some sg) q i s)) = requests s"
    by (simp add: run c4(3) c3(3) c2(3) c1(3) r0)
  have fin: "map_option src (audioRef (fst (playSong_run r (Some sg) q i s))) = Some u"
    if "audioRef s = Some a" for a
  proof -
    from that n0 c1(4) c2(4) c3(4) c4(4)
    have "audioRef (fst (playSong_run r (Some sg) q i s)) \<noteq> None" by (simp add: run)
    with c4(2) show ?thesis by (auto simp: run)
  qed
  show ?thesis
  proof (cases "audioRef s")
    case None
    with r0 rq bind_source_None [of s1 sg u] show ?thesis
      by (simp add: p0_def [symmetric] p0 a1 playSong_run_finishes)
  next
    case (Some a)
    with r0 rq fin [OF Some] bind_source_result [OF assms(2), of s1 a sg] show ?thesis
      by (simp add: p0_def [symmetric] p0 a1 playSong_run_finishes)
  qed
qed

theorem direct_preview_no_search_witness:
  "preview_url track_B = Some ''http://cdn/b.mp3'' \<and> ''http://cdn/b.mp3'' \<noteq> []
   \<and> requests (fst (playSong_run all_fail (Some track_B) [] 0 (init_player ''http://api''))) = []
   \<and> snd (playSong (Some track_B) [] 0 (init_player ''http://api''))
       = AwaitCanplay track_B ''http://cdn/b.mp3''"
proof -
  have h: "preview_url track_B = Some ''http://cdn/b.mp3''" "''http://cdn/b.mp3'' \<noteq> []"
    by (simp_all add: track_B_def)
  obtain a where a: "audioRef (init_player ''http://api'') = Some a"
    using init_player_simps(7) [of "''http://api''"] by auto
  show ?thesis
    using h direct_preview_no_search [OF h, of "[]" 0 "init_player ''http://api''" all_fail]
    by (simp add: a init_player_more)
qed




text \<open>
  C7, as amended. Every event other than a \<open>playSong\<close> with an index outside the queue it
  installs, and other than \<open>clearQueue\<close> while a track is current, keeps the current index
  an index into the queue whenever there is a current track.
\<close>

theorem index_stays_valid:
  "valid_index s \<Longrightarrow> admissible s e \<Longrightarrow> valid_index (step e s) \<and> queue_inv (step e s)"
  using step_valid [of s e] valid_index_queue_inv [of "step e s"] by simp

theorem index_stays_valid_witness:
  "valid_index playing_B \<and> admissible playing_B (AddToQueue (One track_C))
   \<and> valid_index (step (AddToQueue (One track_C)) playing_B)
   \<and> queue_inv (step (AddToQueue (One track_C)) playing_B)"
proof -
  have h: "valid_index playing_B" "admissible playing_B (AddToQueue (One track_C))"
    by (simp_all add: valid_index_iff playing_B_fields)
  show ?thesis using h index_stays_valid [OF h] by simp
qed

text \<open>
  C7 as stated fails for \<open>clearQueue\<close>: it empties the queue and resets the index but
  leaves the current track, so that index 0 is no index into the queue and the queue is
  not the current track alone.
\<close>

theorem clearQueue_counterexample:
  "queue_inv playing_B
   \<and> currentSong (clearQueue playing_B) = Some track_B
   \<and> queue (clearQueue playing_B) = []
   \<and> \<not> queue_inv (clearQueue playing_B)"
  by (simp add: queue_inv_def clearQueue_def playing_B_fields)

text \<open>
  C8, as amended. For every finite \<open>t\<close>, \<open>seekTo t\<close> returns and publishes \<open>t\<close> as the
  elapsed time, whatever the state: with or without a media element, with or without a
  source bound, playing or not; it leaves the timers as they are.
\<close>

theorem seekTo_publishes:
  "seekTo (Num t) s = Inr (step (SeekTo (Num t)) s)
   \<and> currentTime (step (SeekTo (Num t)) s) = Num t
   \<and> timers (step (SeekTo (Num t)) s) = timers s
   \<and> intervalRef (step (SeekTo (Num t)) s) = intervalRef s
   \<and> isPlaying (step (SeekTo (Num t)) s) = isPlaying s"
  by (simp add: seekTo_def split: option.splits)

text \<open>
  C8 as stated fails for a time that is not finite: on the mounted provider the element's
  setter throws, \<open>setCurrentTime\<close> is not reached, and the elapsed time stays what it was.
\<close>

theorem seekTo_infinity_counterexample:
  "seekTo Infinity (init_player ''http://api'') = Inl TypeError
   \<and> currentTime (step (SeekTo Infinity) (init_player ''http://api'')) = Num 0
   \<and> currentTime (step (SeekTo Infinity) (init_player ''http://api'')) \<noteq> Infinity"
  by (simp add: seekTo_def init_player_def mount_def first_render_def apply_volume_def)

text \<open>
  C9. A resource that fails to become playable is to be tried once more with the
  cross-origin mode relaxed before giving up. The code does not do so: when the element
  reports \<open>error\<close> while \<open>playSong(B)\<close> waits for \<open>canplay\<close>, the promise is
  rejected into the outer \<open>catch\<close>, and the invocation ends with the playing flag off,
  \<open>crossOrigin\<close> still \<open>anonymous\<close>, one \<open>load()\<close> and no \<open>play()\<close>: nothing is
  tried again.
\<close>

theorem load_error_not_retried:
  "snd (playSong_run all_fail (Some track_B) [] 0 (init_player ''http://api'')) = Finished
   \<and> isPlaying (fst (playSong_run all_fail (Some track_B) [] 0 (init_player ''http://api''))) = False
   \<and> map_option crossOrigin
       (audioRef (fst (playSong_run all_fail (Some track_B) [] 0 (init_player ''http://api''))))
       = Some (Some ''anonymous'')
   \<and> map_option load_calls
       (audioRef (fst (playSong_run all_fail (Some track_B) [] 0 (init_player ''http://api''))))
       = Some 1
   \<and> map_option play_calls
       (audioRef (fst (playSong_run all_fail (Some track_B) [] 0 (init_player ''http://api''))))
       = Some 0
   \<and> last (toasts (fst (playSong_run all_fail (Some track_B) [] 0 (init_player ''http://api''))))
       = (Error, ''Failed to play '' @ dq @ ''Beta'' @ dq @ ''. Unknown error'')"
  by (simp add: playSong_run_def all_fail_def example_defs playSong_catch_def Let_def)

text \<open>The retry is on the other path: a rejected first \<open>play()\<close> clears \<open>crossOrigin\<close>,
  loads and plays again, and a rejected second \<open>play()\<close> gives up.\<close>

lemma play_rejection_retried_once:
  "audioRef s = Some a \<Longrightarrow>
     snd (playSong_started sg u (Rejected m) s) = AwaitRetry sg u
     \<and> map_option crossOrigin (audioRef (fst (playSong_started sg u (Rejected m) s))) = Some None
     \<and> map_option load_calls (audioRef (fst (playSong_started sg u (Rejected m) s)))
         = Some (load_calls a + 1)
     \<and> map_option play_calls (audioRef (fst (playSong_started sg u (Rejected m) s)))
         = Some (play_calls a + 1)
     \<and> snd (playSong_retried sg u (Rejected m') s') = Finished
     \<and> isPlaying (fst (playSong_retried sg u (Rejected m') s')) = False
     \<and> audioRef (fst (playSong_retried sg u (Rejected m') s')) = audioRef s'"
  by (simp add: playSong_started_def playSong_retried_def Let_def audio_set_src_def
        audio_load_def audio_play_def)

text \<open>
  C10. \<open>playSong\<close> on a null track returns at once: the state is unchanged, nothing is
  requested, the element is not touched and nothing is left suspended.
\<close>

theorem playSong_null_noop:
  "playSong None q i s = (s, Finished) \<and> playSong_run r None q i s = (s, Finished)"
  by (simp add: playSong_def playSong_run_def)

end
